theory Spec2Isabelle
  imports Main "HOL-Library.AList"
begin

section \<open>Strings: what the proxy uses of QString, QByteArray and QRegularExpression\<close>

text \<open>
  The program is \<^verbatim>\<open>src/main.cpp\<close>. Byte arrays and the strings the program handles are
  modelled as \<^typ>\<open>string\<close>. The Qt library and the httpparser library are not part of
  the repository: what the program uses of them is modelled from their documented
  behaviour, and each such definition says so.
\<close>

definition CR :: char where
  "CR = CHR 0x0D"

definition LF :: char where
  "LF = CHR 0x0A"

text \<open>The key registry of \<^verbatim>\<open>main.cpp\<close>, lines 25 to 30.\<close>

definition kConnect :: string where "kConnect = ''CONNECT''"
definition kGet :: string where "kGet = ''GET''"
definition kPut :: string where "kPut = ''PUT''"
definition kPost :: string where "kPost = ''POST''"
definition kHead :: string where "kHead = ''HEAD''"
definition kDelete :: string where "kDelete = ''DELETE''"

text \<open>\<^verbatim>\<open>\d\<close> of the regular expression, and a decimal digit of a place marker: an ASCII digit.\<close>

definition isDigit :: "char \<Rightarrow> bool" where
  "isDigit c = (c \<in> set ''0123456789'')"

definition digitValue :: "char \<Rightarrow> nat" where
  "digitValue c = of_char c - 48"

subsection \<open>The target pattern \<^verbatim>\<open>^(.*):(\d+)$\<close>\<close>

text \<open>
  \<^verbatim>\<open>QRegularExpression("^(.*):(\\d+)$").match(uri)\<close>, lines 216 and 217, with the
  default pattern options: the dot matches every character but a line feed, the dollar
  matches at the end of the subject and before a line feed that ends it. \<open>tailOk r\<close>
  says that \<open>r\<close>, the text after a colon, is \<^verbatim>\<open>\d+$\<close>.
\<close>

definition tailOk :: "string \<Rightarrow> bool" where
  "tailOk r = (let e = dropWhile isDigit r
               in takeWhile isDigit r \<noteq> [] \<and> (e = [] \<or> e = [LF]))"

text \<open>
  The greedy star with backtracking: \<open>matchFrom pre s\<close> has given \<open>pre\<close> to the star
  and first lets it take one more character; only when no match follows does it stop
  the star here, where a colon and \<^verbatim>\<open>\d+$\<close> must come. The result is the two captures.
\<close>

fun matchFrom :: "string \<Rightarrow> string \<Rightarrow> (string \<times> string) option" where
  "matchFrom pre [] = None"
| "matchFrom pre (c # cs) =
     (if c = LF then None
      else (case matchFrom (pre @ [c]) cs of
              Some r \<Rightarrow> Some r
            | None \<Rightarrow>
                if c = CHR '':'' \<and> tailOk cs then Some (pre, takeWhile isDigit cs)
                else None))"

definition regexMatch :: "string \<Rightarrow> (string \<times> string) option" where
  "regexMatch s = matchFrom [] s"

subsection \<open>\<^verbatim>\<open>QString::toInt\<close> and \<^verbatim>\<open>QString::arg\<close>\<close>

fun decValue :: "nat \<Rightarrow> string \<Rightarrow> nat" where
  "decValue acc [] = acc"
| "decValue acc (c # cs) = decValue (10 * acc + digitValue c) cs"

text \<open>
  \<^verbatim>\<open>match.captured(2).toInt()\<close>, line 221, on a string of digits: the value, and 0 when
  it does not fit a 32-bit int (the conversion fails and the failure is not looked at).
\<close>

definition toInt :: "string \<Rightarrow> int" where
  "toInt s = (let n = decValue 0 s in if n \<le> 2147483647 then int n else 0)"

function decNat :: "nat \<Rightarrow> string" where
  "decNat n = (if n < 10 then [''0123456789'' ! n]
               else decNat (n div 10) @ [''0123456789'' ! (n mod 10)])"
  by pat_completeness auto
termination
  by (relation "measure id") auto

declare decNat.simps [simp del]

text \<open>The text \<^verbatim>\<open>QString::arg(int)\<close> inserts: the number in base 10.\<close>

definition decInt :: "int \<Rightarrow> string" where
  "decInt i = (if i < 0 then CHR ''-'' # decNat (nat (- i)) else decNat (nat i))"

text \<open>
  \<^verbatim>\<open>QString::arg\<close> replaces every occurrence of the place marker with the lowest number
  by its argument. A place marker is a percent sign and one or two digits; a percent
  sign before anything else is ordinary text. (The locale form \<^verbatim>\<open>%L1\<close> is left out: the
  program's template has none.)
\<close>

datatype Token = Lit char | Escape nat string

fun tokens :: "string \<Rightarrow> Token list" where
  "tokens [] = []"
| "tokens [p] = [Lit p]"
| "tokens [p, d] =
     (if p = CHR ''%'' \<and> isDigit d then [Escape (digitValue d) [p, d]]
      else Lit p # tokens [d])"
| "tokens (p # d # e # cs) =
     (if p = CHR ''%'' \<and> isDigit d then
        (if isDigit e then Escape (10 * digitValue d + digitValue e) [p, d, e] # tokens cs
         else Escape (digitValue d) [p, d] # tokens (e # cs))
      else Lit p # tokens (d # e # cs))"

fun minEscape :: "Token list \<Rightarrow> nat option" where
  "minEscape [] = None"
| "minEscape (Lit c # ts) = minEscape ts"
| "minEscape (Escape n m # ts) =
     (case minEscape ts of None \<Rightarrow> Some n | Some k \<Rightarrow> Some (min n k))"

fun render :: "nat \<Rightarrow> string \<Rightarrow> Token list \<Rightarrow> string" where
  "render k a [] = []"
| "render k a (Lit c # ts) = c # render k a ts"
| "render k a (Escape n m # ts) = (if n = k then a else m) @ render k a ts"

definition arg :: "string \<Rightarrow> string \<Rightarrow> string" where
  "arg a s = (case minEscape (tokens s) of
                None \<Rightarrow> s
              | Some k \<Rightarrow> render k a (tokens s))"

section \<open>The httpparser collaborator\<close>

text \<open>
  \<^verbatim>\<open>httpparser::Request\<close> and \<^verbatim>\<open>HttpRequestParser::parse\<close> come from a library outside
  the repository. The program reads three things of a parsed request: the method, the
  target and the two version numbers. The parser itself is a parameter of the model.
\<close>

datatype ParseResult = ParsingCompleted | ParsingIncompleted | ParsingError

record Request =
  "method" :: string
  uri :: string
  versionMajor :: int
  versionMinor :: int

type_synonym Parser = "string \<Rightarrow> ParseResult \<times> Request"

section \<open>Sockets\<close>

text \<open>
  What the program observes and does on a \<^verbatim>\<open>QTcpSocket\<close>: its connection state, whether
  its signals are blocked, whether the device is open, the bytes received and not yet
  read, the bytes written and not yet flushed, the bytes sent to the peer, and the
  \<^verbatim>\<open>connectToHost\<close> calls made on it (address and 16-bit port), oldest first.
\<close>

datatype SocketState =
  UnconnectedState | HostLookupState | ConnectingState | ConnectedState | ClosingState

type_synonym QHostAddress = string

record QTcpSocket =
  sockState :: SocketState
  signalsBlocked :: bool
  isOpen :: bool
  readBuffer :: string
  writeBuffer :: string
  sent :: string
  connectCalls :: "(QHostAddress \<times> nat) list"

text \<open>\<^verbatim>\<open>new QTcpSocket\<close>: unconnected and closed.\<close>

definition newSocket :: QTcpSocket where
  "newSocket = \<lparr>sockState = UnconnectedState, signalsBlocked = False, isOpen = False,
     readBuffer = [], writeBuffer = [], sent = [], connectCalls = []\<rparr>"

text \<open>A socket after \<^verbatim>\<open>setSocketDescriptor\<close> has adopted an accepted connection.\<close>

definition acceptedSocket :: QTcpSocket where
  "acceptedSocket = newSocket\<lparr>sockState := ConnectedState, isOpen := True\<rparr>"

definition blockSignals :: "bool \<Rightarrow> QTcpSocket \<Rightarrow> QTcpSocket" where
  "blockSignals b s = s\<lparr>signalsBlocked := b\<rparr>"

text \<open>\<^verbatim>\<open>QIODevice::write\<close> fails on a device that is not open and queues the bytes otherwise.\<close>

definition writeData :: "string \<Rightarrow> QTcpSocket \<Rightarrow> QTcpSocket" where
  "writeData bytes s = (if isOpen s then s\<lparr>writeBuffer := writeBuffer s @ bytes\<rparr> else s)"

definition flush :: "QTcpSocket \<Rightarrow> QTcpSocket" where
  "flush s = s\<lparr>sent := sent s @ writeBuffer s, writeBuffer := []\<rparr>"

text \<open>
  \<^verbatim>\<open>disconnectFromHost\<close> and \<^verbatim>\<open>close\<close>: the socket ends unconnected and closed, what it
  had received is dropped. (Qt lets an attempt in progress finish before it closes the
  socket; the model closes it at once.)
\<close>

definition disconnectFromHost :: "QTcpSocket \<Rightarrow> QTcpSocket" where
  "disconnectFromHost s = s\<lparr>sockState := UnconnectedState\<rparr>"

definition close :: "QTcpSocket \<Rightarrow> QTcpSocket" where
  "close s = s\<lparr>sockState := UnconnectedState, isOpen := False, readBuffer := []\<rparr>"

text \<open>The bytes \<open>d\<close> arrive: they wait in the read buffer until \<^verbatim>\<open>readAll\<close>.\<close>

definition receive :: "string \<Rightarrow> QTcpSocket \<Rightarrow> QTcpSocket" where
  "receive d s = s\<lparr>readBuffer := readBuffer s @ d\<rparr>"

section \<open>ProxyConnection\<close>

text \<open>
  The session object, lines 51 to 70, with what Qt keeps for it: whether its own signals
  are blocked (\<^verbatim>\<open>QObject::blockSignals\<close>, line 165), the \<^verbatim>\<open>lookupHost\<close> calls whose functor
  has not run yet (with the host, port and request each functor captured), the functors
  connected to the upstream's \<^verbatim>\<open>connected\<close> signal, and the warnings logged.
\<close>

record ProxyConnection =
  conId :: int
  downStream :: QTcpSocket
  upStream :: QTcpSocket
  connSignalsBlocked :: bool
  pendingLookups :: "(string \<times> int \<times> Request) list"
  connectedSlots :: "Request list"
  warnings :: "string list"

text \<open>The constructor, lines 172 to 184.\<close>

definition newProxyConnection :: "QTcpSocket \<Rightarrow> int \<Rightarrow> ProxyConnection" where
  "newProxyConnection ds i = \<lparr>conId = i, downStream = ds, upStream = newSocket,
     connSignalsBlocked = False, pendingLookups = [], connectedSlots = [], warnings = []\<rparr>"

definition qWarning :: "string \<Rightarrow> ProxyConnection \<Rightarrow> ProxyConnection" where
  "qWarning msg c = c\<lparr>warnings := warnings c @ [msg]\<rparr>"

text \<open>
  \<^verbatim>\<open>ProxyConnection::terminate\<close>, lines 188 to 197. The second component lists the
  \<^verbatim>\<open>terminated\<close> signals that reach the connected slot: none when the connection's own
  signals are blocked.
\<close>

definition terminate :: "ProxyConnection \<Rightarrow> ProxyConnection \<times> int list" where
  "terminate c =
     (let d1 = blockSignals True (downStream c);
          u1 = blockSignals True (upStream c);
          d2 = close (disconnectFromHost d1);
          u2 = close (disconnectFromHost u1)
      in (c\<lparr>downStream := d2, upStream := u2\<rparr>,
          if connSignalsBlocked c then [] else [conId c]))"

text \<open>The application name and version set at lines 95 and 96.\<close>

definition applicationName :: string where
  "applicationName = ''DllProxyServer''"

definition applicationVersion :: string where
  "applicationVersion = ''1.0.0''"

definition responseTemplate :: string where
  "responseTemplate = ''HTTP/%1.%2 200 Connection established'' @ [CR, LF]
     @ ''Proxy-agent: %3/%4'' @ [CR, LF, CR, LF]"

text \<open>The reply built at lines 230 to 234.\<close>

definition response :: "Request \<Rightarrow> string" where
  "response request =
     arg applicationVersion
       (arg applicationName
          (arg (decInt (versionMinor request))
             (arg (decInt (versionMajor request)) responseTemplate)))"

text \<open>The functor connected to the upstream's \<^verbatim>\<open>connected\<close> signal, lines 228 to 238.\<close>

definition onConnected :: "Request \<Rightarrow> ProxyConnection \<Rightarrow> ProxyConnection" where
  "onConnected request c =
     (if method request = kConnect
      then c\<lparr>downStream := flush (writeData (response request) (downStream c))\<rparr>
      else c)"

text \<open>
  \<^verbatim>\<open>_upStream->connectToHost(address, port)\<close>, line 226. The port parameter is a
  \<^verbatim>\<open>quint16\<close>: the int is cut to 16 bits. On an unconnected socket Qt opens the device and
  starts the attempt, whose outcome arrives later as an event; on a socket that is
  connecting or connected it refuses the call and emits \<^verbatim>\<open>errorOccurred\<close>, which the
  functor of lines 181 to 183 logs when the socket's signals are not blocked.
\<close>

definition connectToHost :: "QHostAddress \<Rightarrow> int \<Rightarrow> ProxyConnection \<Rightarrow> ProxyConnection" where
  "connectToHost a port c =
     (let u = (upStream c)\<lparr>connectCalls := connectCalls (upStream c) @ [(a, nat (port mod 65536))]\<rparr>
      in if sockState u = UnconnectedState
         then c\<lparr>upStream := u\<lparr>sockState := ConnectingState, isOpen := True\<rparr>\<rparr>
         else if signalsBlocked u then c\<lparr>upStream := u\<rparr>
         else qWarning ''UpStream error: '' (c\<lparr>upStream := u\<rparr>))"

text \<open>The functor given to \<^verbatim>\<open>QHostInfo::lookupHost\<close>, lines 222 to 243.\<close>

definition lookupFinished ::
  "string \<times> int \<times> Request \<Rightarrow> QHostAddress list \<Rightarrow> ProxyConnection \<Rightarrow> ProxyConnection \<times> int list"
where
  "lookupFinished l addresses c =
     (case l of (host, port, request) \<Rightarrow>
        (case addresses of
           a # _ \<Rightarrow>
             ((connectToHost a port c)\<lparr>connectedSlots :=
                 connectedSlots (connectToHost a port c) @ [request]\<rparr>, [])
         | [] \<Rightarrow> terminate (qWarning ''HostLookup failed!'' c)))"

text \<open>\<^verbatim>\<open>ProxyConnection::downStreamReadyRead\<close>, lines 199 to 257.\<close>

definition downStreamReadyRead :: "Parser \<Rightarrow> ProxyConnection \<Rightarrow> ProxyConnection \<times> int list" where
  "downStreamReadyRead parse c0 =
     (let data = readBuffer (downStream c0);
          c = c0\<lparr>downStream := (downStream c0)\<lparr>readBuffer := []\<rparr>\<rparr>
      in if sockState (upStream c) \<noteq> ConnectedState then
           (case parse data of (result, request) \<Rightarrow>
              if result = ParsingCompleted then
                if method request = kConnect \<or> method request = kGet
                   \<or> method request = kPut \<or> method request = kPost
                   \<or> method request = kHead \<or> method request = kDelete
                then
                  (case regexMatch (uri request) of
                     Some (host, port) \<Rightarrow>
                       (c\<lparr>pendingLookups := pendingLookups c @ [(host, toInt port, request)]\<rparr>, [])
                   | None \<Rightarrow> terminate (qWarning ''Invaid URI found!'' c))
                else (c, [])
              else terminate (qWarning ''HttpRequest parse failed!'' c))
         else (c\<lparr>upStream := flush (writeData data (upStream c))\<rparr>, []))"

text \<open>\<^verbatim>\<open>ProxyConnection::upStreamReadyRead\<close>, lines 259 to 262.\<close>

definition upStreamReadyRead :: "ProxyConnection \<Rightarrow> ProxyConnection" where
  "upStreamReadyRead c =
     c\<lparr>upStream := (upStream c)\<lparr>readBuffer := []\<rparr>,
       downStream := flush (writeData (readBuffer (upStream c)) (downStream c))\<rparr>"

section \<open>The events of a session\<close>

text \<open>
  What the event loop delivers to one session: the signals of its two sockets and the
  completion of a pending host lookup (the position of the lookup in the pending list,
  and the addresses found). \<open>UpConnectFailed\<close> is the failure of the connect attempt:
  Qt returns the socket to the unconnected state and emits \<^verbatim>\<open>errorOccurred\<close>, not
  \<^verbatim>\<open>disconnected\<close>. A socket whose signals are blocked runs no slot.
\<close>

datatype Event =
    DownReadyRead string
  | DownDisconnected
  | DownErrorOccurred
  | UpConnected
  | UpConnectFailed
  | UpErrorOccurred
  | UpReadyRead string
  | UpDisconnected
  | LookupFinished nat "QHostAddress list"

fun conn_event :: "Parser \<Rightarrow> Event \<Rightarrow> ProxyConnection \<Rightarrow> ProxyConnection \<times> int list" where
  "conn_event parse (DownReadyRead d) c =
     (let c1 = c\<lparr>downStream := receive d (downStream c)\<rparr>
      in if signalsBlocked (downStream c1) then (c1, []) else downStreamReadyRead parse c1)"
| "conn_event parse DownDisconnected c =
     (let c1 = c\<lparr>downStream := disconnectFromHost (downStream c)\<rparr>
      in if signalsBlocked (downStream c1) then (c1, []) else terminate c1)"
| "conn_event parse DownErrorOccurred c =
     (if signalsBlocked (downStream c) then (c, [])
      else (qWarning ''DownStream error: '' c, []))"
| "conn_event parse UpConnected c =
     (if sockState (upStream c) = ConnectingState then
        (let c1 = c\<lparr>upStream := (upStream c)\<lparr>sockState := ConnectedState\<rparr>\<rparr>
         in if signalsBlocked (upStream c1) then (c1, [])
            else (fold onConnected (connectedSlots c1) c1, []))
      else (c, []))"
| "conn_event parse UpConnectFailed c =
     (if sockState (upStream c) = ConnectingState then
        (let c1 = c\<lparr>upStream := (upStream c)\<lparr>sockState := UnconnectedState\<rparr>\<rparr>
         in if signalsBlocked (upStream c1) then (c1, [])
            else (qWarning ''UpStream error: '' c1, []))
      else (c, []))"
| "conn_event parse UpErrorOccurred c =
     (if signalsBlocked (upStream c) then (c, [])
      else (qWarning ''UpStream error: '' c, []))"
| "conn_event parse (UpReadyRead d) c =
     (let c1 = c\<lparr>upStream := receive d (upStream c)\<rparr>
      in if signalsBlocked (upStream c1) then (c1, []) else (upStreamReadyRead c1, []))"
| "conn_event parse UpDisconnected c =
     (let c1 = c\<lparr>upStream := disconnectFromHost (upStream c)\<rparr>
      in if signalsBlocked (upStream c1) then (c1, []) else terminate c1)"
| "conn_event parse (LookupFinished k addresses) c =
     (if k < length (pendingLookups c) then
        lookupFinished (pendingLookups c ! k) addresses
          (c\<lparr>pendingLookups := take k (pendingLookups c) @ drop (Suc k) (pendingLookups c)\<rparr>)
      else (c, []))"

text \<open>A session after a sequence of events, oldest first.\<close>

fun conn_run :: "Parser \<Rightarrow> Event list \<Rightarrow> ProxyConnection \<Rightarrow> ProxyConnection" where
  "conn_run parse [] c = c"
| "conn_run parse (e # es) c = conn_run parse es (fst (conn_event parse e c))"

text \<open>The \<^verbatim>\<open>terminated\<close> signals a session emits during a sequence of events.\<close>

fun conn_signals :: "Parser \<Rightarrow> Event list \<Rightarrow> ProxyConnection \<Rightarrow> int list" where
  "conn_signals parse [] c = []"
| "conn_signals parse (e # es) c =
     snd (conn_event parse e c) @ conn_signals parse es (fst (conn_event parse e c))"

section \<open>ProxyServer\<close>

text \<open>
  The registry \<^verbatim>\<open>_connections\<close> maps a session id to a shared pointer. The model keeps
  the \<^verbatim>\<open>ProxyConnection\<close> objects in a store, by address, and the registry as an
  association list from ids to addresses. The pointer's deleter is
  \<^verbatim>\<open>QObject::deleteLater\<close> (line 153): an object whose last pointer is dropped stays alive
  until the event loop handles its deferred deletion. The log holds the \<^verbatim>\<open>qInfo\<close> lines
  with the registry size and the warning of line 157.
\<close>

datatype LogEntry = ActiveConnections nat | SetDescriptorFailed

record ProxyServer =
  connections :: "(int \<times> nat) list"
  objects :: "nat \<rightharpoonup> ProxyConnection"
  deferredDelete :: "nat list"
  nextObject :: nat
  serverLog :: "LogEntry list"

definition newProxyServer :: ProxyServer where
  "newProxyServer = \<lparr>connections = [], objects = Map.empty, deferredDelete = [],
     nextObject = 0, serverLog = []\<rparr>"

definition qInfoActive :: "ProxyServer \<Rightarrow> ProxyServer" where
  "qInfoActive s = s\<lparr>serverLog := serverLog s @ [ActiveConnections (length (connections s))]\<rparr>"

text \<open>\<^verbatim>\<open>static_cast<int>(handle)\<close>, line 149: a 64-bit handle cut to a signed 32-bit int.\<close>

definition toInt32 :: "int \<Rightarrow> int" where
  "toInt32 h = (h + 2147483648) mod 4294967296 - 2147483648"

text \<open>
  \<^verbatim>\<open>ProxyServer::incomingConnection\<close>, lines 148 to 161; \<open>ok\<close> is the result of
  \<^verbatim>\<open>setSocketDescriptor\<close>. \<^verbatim>\<open>QMap::insert\<close> replaces the pointer stored under the same
  id, and the object it pointed to is then left to its deferred deletion.
\<close>

definition incomingConnection :: "int \<Rightarrow> bool \<Rightarrow> ProxyServer \<Rightarrow> ProxyServer" where
  "incomingConnection handle ok s =
     (let i = toInt32 handle
      in qInfoActive
           (if ok then
              s\<lparr>objects := (objects s)(nextObject s \<mapsto> newProxyConnection acceptedSocket i),
                connections := AList.update i (nextObject s) (connections s),
                deferredDelete := deferredDelete s
                  @ (case map_of (connections s) i of None \<Rightarrow> [] | Some old \<Rightarrow> [old]),
                nextObject := Suc (nextObject s)\<rparr>
            else s\<lparr>serverLog := serverLog s @ [SetDescriptorFailed]\<rparr>))"

text \<open>\<^verbatim>\<open>ProxyServer::onConnectionTerminate\<close>, lines 163 to 170.\<close>

definition onConnectionTerminate :: "int \<Rightarrow> ProxyServer \<Rightarrow> ProxyServer" where
  "onConnectionTerminate i s =
     qInfoActive
       (case map_of (connections s) i of
          Some r \<Rightarrow>
            s\<lparr>objects := (objects s)(r :=
                  map_option (\<lambda>c. c\<lparr>connSignalsBlocked := True\<rparr>) (objects s r)),
              connections := AList.delete i (connections s),
              deferredDelete := deferredDelete s @ [r]\<rparr>
        | None \<Rightarrow> s)"

text \<open>
  A slot of the object at address \<open>r\<close> runs; the \<^verbatim>\<open>terminated\<close> signals it emits reach
  \<open>onConnectionTerminate\<close> (the connection of line 155). An object that has been
  deleted runs nothing.
\<close>

definition dispatch ::
  "nat \<Rightarrow> (ProxyConnection \<Rightarrow> ProxyConnection \<times> int list) \<Rightarrow> ProxyServer \<Rightarrow> ProxyServer"
where
  "dispatch r slot s =
     (case objects s r of
        None \<Rightarrow> s
      | Some c \<Rightarrow>
          (case slot c of (c', ids) \<Rightarrow>
             fold onConnectionTerminate ids (s\<lparr>objects := (objects s)(r \<mapsto> c')\<rparr>)))"

datatype ServerEvent =
    IncomingConnection int bool
  | SessionEvent nat Event
  | DeferredDelete nat

fun server_event :: "Parser \<Rightarrow> ServerEvent \<Rightarrow> ProxyServer \<Rightarrow> ProxyServer" where
  "server_event parse (IncomingConnection handle ok) s = incomingConnection handle ok s"
| "server_event parse (SessionEvent r e) s = dispatch r (conn_event parse e) s"
| "server_event parse (DeferredDelete r) s =
     (if r \<in> set (deferredDelete s)
      then s\<lparr>objects := (objects s)(r := None),
             deferredDelete := removeAll r (deferredDelete s)\<rparr>
      else s)"

fun server_run :: "Parser \<Rightarrow> ServerEvent list \<Rightarrow> ProxyServer \<Rightarrow> ProxyServer" where
  "server_run parse [] s = s"
| "server_run parse (e # es) s = server_run parse es (server_event parse e s)"

section \<open>Fixtures and reference definitions for the properties\<close>

text \<open>A parser that completes on every input with the request \<open>r\<close>.\<close>

definition parsesTo :: "Request \<Rightarrow> Parser" where
  "parsesTo r = (\<lambda>data. (ParsingCompleted, r))"

text \<open>The session the acceptor creates for the id \<open>i\<close>.\<close>

definition freshSession :: "int \<Rightarrow> ProxyConnection" where
  "freshSession i = newProxyConnection acceptedSocket i"

text \<open>
  The reference for the downstream-to-upstream relay: the bytes read by those
  \<^verbatim>\<open>readyRead\<close> slots of the downstream socket that run while the upstream socket is in
  the connected state, in the order of the events.
\<close>

fun forwarded :: "Parser \<Rightarrow> Event list \<Rightarrow> ProxyConnection \<Rightarrow> string" where
  "forwarded parse [] c = []"
| "forwarded parse (e # es) c =
     (case e of
        DownReadyRead d \<Rightarrow>
          if \<not> signalsBlocked (downStream c) \<and> sockState (upStream c) = ConnectedState
          then readBuffer (downStream c) @ d else []
      | _ \<Rightarrow> [])
     @ forwarded parse es (fst (conn_event parse e c))"

text \<open>The number of downstream chunks in a sequence of events.\<close>

fun downReads :: "Event list \<Rightarrow> nat" where
  "downReads [] = 0"
| "downReads (DownReadyRead d # es) = Suc (downReads es)"
| "downReads (e # es) = downReads es"

text \<open>The events that are signals of one of the two sockets.\<close>

fun socketSignal :: "Event \<Rightarrow> bool" where
  "socketSignal (LookupFinished k addresses) = False"
| "socketSignal e = True"

text \<open>The requests of the scenarios.\<close>

definition reqA :: Request where
  "reqA = \<lparr>method = ''CONNECT'', uri = ''example.com:443'', versionMajor = 1, versionMinor = 1\<rparr>"


definition reqC :: Request where
  "reqC = \<lparr>method = ''GET'', uri = ''/path'', versionMajor = 1, versionMinor = 1\<rparr>"

definition reqU :: Request where
  "reqU = \<lparr>method = ''GET'', uri = ''http://example.com:80'', versionMajor = 1, versionMinor = 1\<rparr>"

definition reqG :: Request where
  "reqG = \<lparr>method = ''GET'', uri = ''example.com:80'', versionMajor = 1, versionMinor = 1\<rparr>"

definition reqD :: Request where
  "reqD = \<lparr>method = ''CONNECT'', uri = ''host:9999'', versionMajor = 1, versionMinor = 1\<rparr>"

definition reqO :: Request where
  "reqO = \<lparr>method = ''OPTIONS'', uri = ''example.com:80'', versionMajor = 1, versionMinor = 1\<rparr>"

text \<open>
  An invariant of the upstream socket: while it is connecting or connected the device is
  open, and nothing written to it stays unflushed.
\<close>

definition upInv :: "QTcpSocket \<Rightarrow> bool" where
  "upInv u = ((sockState u = ConnectingState \<or> sockState u = ConnectedState \<longrightarrow> isOpen u)
     \<and> writeBuffer u = [])"

text \<open>
  An invariant of a session: until its sockets are blocked the downstream device is
  open, and nothing written to it stays unflushed.
\<close>

definition downInv :: "ProxyConnection \<Rightarrow> bool" where
  "downInv c = ((signalsBlocked (upStream c) \<or> isOpen (downStream c))
     \<and> writeBuffer (downStream c) = [])"



section \<open>Evaluation rules\<close>

lemmas socket_defs = newSocket_def acceptedSocket_def blockSignals_def writeData_def flush_def
  disconnectFromHost_def close_def receive_def

lemmas session_defs = newProxyConnection_def freshSession_def qWarning_def terminate_def
  onConnected_def connectToHost_def lookupFinished_def downStreamReadyRead_def
  upStreamReadyRead_def parsesTo_def

lemmas server_defs = newProxyServer_def incomingConnection_def dispatch_def qInfoActive_def
  toInt32_def onConnectionTerminate_def

lemmas key_defs = kConnect_def kGet_def kPut_def kPost_def kHead_def kDelete_def

lemmas regex_defs = regexMatch_def tailOk_def isDigit_def digitValue_def toInt_def LF_def CR_def

section \<open>The target pattern\<close>

lemma isDigit_not_colon: "isDigit c \<Longrightarrow> c \<noteq> CHR '':''"
  by (auto simp: isDigit_def)

lemma matchFrom_no_colon: "\<forall>c\<in>set s. c \<noteq> CHR '':'' \<Longrightarrow> matchFrom pre s = None"
  by (induction s arbitrary: pre) simp_all

lemma matchFrom_Some_D:
  "matchFrom pre s = Some (h, p) \<Longrightarrow>
     \<exists>h' e. h = pre @ h' \<and> s = h' @ CHR '':'' # p @ e \<and> p \<noteq> [] \<and> (\<forall>c\<in>set p. isDigit c)
       \<and> (e = [] \<or> e = [LF]) \<and> LF \<notin> set h'"
proof (induction s arbitrary: pre)
  case Nil
  then show ?case by simp
next
  case (Cons c cs)
  from Cons.prems have nl: "c \<noteq> LF" by (auto split: if_splits)
  show ?case
  proof (cases "matchFrom (pre @ [c]) cs")
    case (Some r)
    with Cons.prems nl have "matchFrom (pre @ [c]) cs = Some (h, p)" by simp
    from Cons.IH [OF this] obtain h' e where
      "h = (pre @ [c]) @ h'" "cs = h' @ CHR '':'' # p @ e" "p \<noteq> []" "\<forall>c\<in>set p. isDigit c"
      "e = [] \<or> e = [LF]" "LF \<notin> set h'" by blast
    with nl show ?thesis
      by (intro exI [of _ "c # h'"] exI [of _ e]) simp
  next
    case None
    with Cons.prems nl have c: "c = CHR '':''" and t: "tailOk cs"
      and h: "h = pre" and p: "p = takeWhile isDigit cs"
      by (auto split: if_splits)
    have "cs = p @ dropWhile isDigit cs" by (simp add: p)
    moreover have "\<forall>c\<in>set p. isDigit c" using p by (auto dest: set_takeWhileD)
    ultimately show ?thesis using t c h p
      by (intro exI [of _ "[]"] exI [of _ "dropWhile isDigit cs"]) (auto simp: tailOk_def Let_def)
  qed
qed

lemma tailOk_I:
  assumes "p \<noteq> []" "\<forall>c\<in>set p. isDigit c" "e = [] \<or> e = [LF]"
  shows "tailOk (p @ e) \<and> takeWhile isDigit (p @ e) = p"
proof -
  have nd: "\<not> isDigit LF" by (simp add: isDigit_def LF_def)
  from assms(2,3) nd have 1: "takeWhile isDigit (p @ e) = p"
    by (auto simp: takeWhile_append2)
  from assms(2,3) nd have 2: "dropWhile isDigit (p @ e) = e"
    by (auto simp: dropWhile_append2)
  from 1 2 assms show ?thesis by (simp add: tailOk_def Let_def)
qed

lemma matchFrom_Some_I:
  assumes "p \<noteq> []" "\<forall>c\<in>set p. isDigit c" "e = [] \<or> e = [LF]"
  shows "LF \<notin> set h' \<Longrightarrow> matchFrom pre (h' @ CHR '':'' # p @ e) = Some (pre @ h', p)"
proof (induction h' arbitrary: pre)
  case Nil
  have "\<forall>c\<in>set p. c \<noteq> CHR '':''"
    using assms(2) isDigit_not_colon by blast
  moreover have "\<forall>c\<in>set e. c \<noteq> CHR '':''"
    using assms(3) by (auto simp: LF_def)
  ultimately have "\<forall>c\<in>set (p @ e). c \<noteq> CHR '':''"
    by (simp add: ball_Un)
  then have n: "matchFrom (pre @ '':'') (p @ e) = None" by (rule matchFrom_no_colon)
  have c: "CHR '':'' \<noteq> LF" by (simp add: LF_def)
  from tailOk_I [OF assms] have t: "tailOk (p @ e)" and w: "takeWhile isDigit (p @ e) = p"
    by simp_all
  show ?case by (simp add: n c t w)
next
  case (Cons c h')
  from Cons.prems have "c \<noteq> LF" "LF \<notin> set h'" by auto
  with Cons.IH [of "pre @ [c]"] show ?case by simp
qed

lemma regexMatch_iff:
  "regexMatch u = Some (h, p) \<longleftrightarrow>
     (\<exists>e. u = h @ '':'' @ p @ e \<and> p \<noteq> [] \<and> (\<forall>c\<in>set p. isDigit c)
        \<and> (e = [] \<or> e = [LF]) \<and> LF \<notin> set h)"
proof
  assume "regexMatch u = Some (h, p)"
  from matchFrom_Some_D [OF this [unfolded regexMatch_def]] show
    "\<exists>e. u = h @ '':'' @ p @ e \<and> p \<noteq> [] \<and> (\<forall>c\<in>set p. isDigit c)
        \<and> (e = [] \<or> e = [LF]) \<and> LF \<notin> set h" by auto
next
  assume "\<exists>e. u = h @ '':'' @ p @ e \<and> p \<noteq> [] \<and> (\<forall>c\<in>set p. isDigit c)
        \<and> (e = [] \<or> e = [LF]) \<and> LF \<notin> set h"
  then obtain e where u: "u = h @ CHR '':'' # p @ e" and a: "p \<noteq> []" "\<forall>c\<in>set p. isDigit c"
     "e = [] \<or> e = [LF]" and l: "LF \<notin> set h" by auto
  from matchFrom_Some_I [OF a l, of "[]"] u show "regexMatch u = Some (h, p)"
    by (simp add: regexMatch_def)
qed

section \<open>The reply to CONNECT\<close>









section \<open>Properties of the session's slots\<close>

lemma terminate_props:
  "signalsBlocked (downStream (fst (terminate c)))"
  "signalsBlocked (upStream (fst (terminate c)))"
  "\<not> isOpen (downStream (fst (terminate c)))"
  "\<not> isOpen (upStream (fst (terminate c)))"
  "sockState (downStream (fst (terminate c))) = UnconnectedState"
  "sockState (upStream (fst (terminate c))) = UnconnectedState"
  "sent (downStream (fst (terminate c))) = sent (downStream c)"
  "writeBuffer (downStream (fst (terminate c))) = writeBuffer (downStream c)"
  "sent (upStream (fst (terminate c))) = sent (upStream c)"
  "writeBuffer (upStream (fst (terminate c))) = writeBuffer (upStream c)"
  "connectCalls (upStream (fst (terminate c))) = connectCalls (upStream c)"
  "pendingLookups (fst (terminate c)) = pendingLookups c"
  "connectedSlots (fst (terminate c)) = connectedSlots c"
  "warnings (fst (terminate c)) = warnings c"
  "conId (fst (terminate c)) = conId c"
  "connSignalsBlocked (fst (terminate c)) = connSignalsBlocked c"
  "snd (terminate c) = (if connSignalsBlocked c then [] else [conId c])"
  by (simp_all add: terminate_def socket_defs Let_def)

lemma connectToHost_props:
  "downStream (connectToHost a port c) = downStream c"
  "signalsBlocked (upStream (connectToHost a port c)) = signalsBlocked (upStream c)"
  "sent (upStream (connectToHost a port c)) = sent (upStream c)"
  "writeBuffer (upStream (connectToHost a port c)) = writeBuffer (upStream c)"
  "connectCalls (upStream (connectToHost a port c))
     = connectCalls (upStream c) @ [(a, nat (port mod 65536))]"
  "pendingLookups (connectToHost a port c) = pendingLookups c"
  "connectedSlots (connectToHost a port c) = connectedSlots c"
  "connSignalsBlocked (connectToHost a port c) = connSignalsBlocked c"
  "conId (connectToHost a port c) = conId c"
  by (simp_all add: connectToHost_def qWarning_def Let_def)



section \<open>Blocked sockets run no slot\<close>

lemma blocked_socket_signal:
  assumes "signalsBlocked (downStream c)" "signalsBlocked (upStream c)" "socketSignal e"
  shows "snd (conn_event parse e c) = []
       \<and> signalsBlocked (downStream (fst (conn_event parse e c)))
       \<and> signalsBlocked (upStream (fst (conn_event parse e c)))
       \<and> sent (downStream (fst (conn_event parse e c))) = sent (downStream c)
       \<and> writeBuffer (downStream (fst (conn_event parse e c))) = writeBuffer (downStream c)
       \<and> sent (upStream (fst (conn_event parse e c))) = sent (upStream c)
       \<and> writeBuffer (upStream (fst (conn_event parse e c))) = writeBuffer (upStream c)
       \<and> connectCalls (upStream (fst (conn_event parse e c))) = connectCalls (upStream c)
       \<and> pendingLookups (fst (conn_event parse e c)) = pendingLookups c
       \<and> connectedSlots (fst (conn_event parse e c)) = connectedSlots c
       \<and> warnings (fst (conn_event parse e c)) = warnings c"
  using assms by (cases e) (simp_all add: socket_defs Let_def)

section \<open>The downstream-to-upstream relay\<close>

lemma onConnected_upStream: "upStream (onConnected r c) = upStream c"
  by (simp add: onConnected_def)

lemma fold_onConnected_upStream: "upStream (fold onConnected rs c) = upStream c"
  by (induction rs arbitrary: c) (simp_all add: onConnected_upStream)

lemma downStreamReadyRead_upStream:
  "upStream (fst (downStreamReadyRead parse c)) =
     (if sockState (upStream c) = ConnectedState
      then flush (writeData (readBuffer (downStream c)) (upStream c))
      else if fst (parse (readBuffer (downStream c))) = ParsingCompleted
        \<and> method (snd (parse (readBuffer (downStream c))))
            \<in> set [kConnect, kGet, kPut, kPost, kHead, kDelete]
        \<and> regexMatch (uri (snd (parse (readBuffer (downStream c))))) \<noteq> None
      then upStream c
      else if fst (parse (readBuffer (downStream c))) = ParsingCompleted
        \<and> method (snd (parse (readBuffer (downStream c))))
            \<in> set [kConnect, kGet, kPut, kPost, kHead, kDelete]
        \<or> fst (parse (readBuffer (downStream c))) \<noteq> ParsingCompleted
      then close (disconnectFromHost (blockSignals True (upStream c)))
      else upStream c)"
  by (cases "parse (readBuffer (downStream c))")
     (auto simp: downStreamReadyRead_def terminate_def qWarning_def Let_def
        split: option.splits)

lemma upInv_close: "upInv u \<Longrightarrow> upInv (close (disconnectFromHost (blockSignals b u)))"
  by (simp add: upInv_def socket_defs)

lemma relay_event:
  assumes "upInv (upStream c)"
  shows "upInv (upStream (fst (conn_event parse e c)))
       \<and> sent (upStream (fst (conn_event parse e c)))
          = sent (upStream c) @ forwarded parse [e] c"
proof (cases e)
  case (DownReadyRead d)
  show ?thesis
    using assms
    by (simp add: DownReadyRead downStreamReadyRead_upStream receive_def Let_def)
       (auto simp: upInv_def socket_defs)
next
  case (LookupFinished k addresses)
  obtain host port request where l: "pendingLookups c ! k = (host, port, request)"
    by (cases "pendingLookups c ! k") auto
  show ?thesis
    using assms
    by (cases addresses)
       (auto simp: LookupFinished l lookupFinished_def terminate_def connectToHost_def
          qWarning_def upInv_def socket_defs Let_def)
next
  case UpConnected
  then show ?thesis
    using assms by (auto simp: fold_onConnected_upStream upInv_def Let_def)
qed (use assms in \<open>auto simp: upInv_def socket_defs terminate_def upStreamReadyRead_def
      qWarning_def Let_def\<close>)

lemma relay_run:
  assumes "upInv (upStream c)"
  shows "sent (upStream (conn_run parse es c)) = sent (upStream c) @ forwarded parse es c"
  using assms
proof (induction es arbitrary: c)
  case Nil
  then show ?case by simp
next
  case (Cons e es)
  from relay_event [OF Cons.prems, of parse e]
  have i: "upInv (upStream (fst (conn_event parse e c)))"
    and s: "sent (upStream (fst (conn_event parse e c))) = sent (upStream c) @ forwarded parse [e] c"
    by simp_all
  from Cons.IH [OF i] s show ?case
    by simp
qed

section \<open>Counting lookups and connect calls\<close>

lemma fold_onConnected_keeps:
  "pendingLookups (fold onConnected rs c) = pendingLookups c"
  by (induction rs arbitrary: c) (simp_all add: onConnected_def)

lemma classify_event:
  "length (connectCalls (upStream (fst (conn_event parse e c))))
     + length (pendingLookups (fst (conn_event parse e c)))
   \<le> length (connectCalls (upStream c)) + length (pendingLookups c) + downReads [e]"
proof (cases e)
  case (DownReadyRead d)
  show ?thesis
    by (cases "parse (readBuffer (downStream c) @ d)")
       (auto simp: DownReadyRead downStreamReadyRead_def receive_def terminate_props
          qWarning_def socket_defs Let_def split: option.splits)
next
  case (LookupFinished k addresses)
  obtain host port request where l: "pendingLookups c ! k = (host, port, request)"
    by (cases "pendingLookups c ! k") auto
  show ?thesis
    by (cases addresses)
       (auto simp: LookupFinished l lookupFinished_def terminate_props connectToHost_props
          qWarning_def)
qed (auto simp: terminate_props socket_defs upStreamReadyRead_def qWarning_def Let_def
      fold_onConnected_upStream fold_onConnected_keeps)

lemma downReads_Cons: "downReads (e # es) = downReads [e] + downReads es"
  by (cases e) simp_all

lemma classify_run:
  "length (connectCalls (upStream (conn_run parse es c)))
     + length (pendingLookups (conn_run parse es c))
   \<le> length (connectCalls (upStream c)) + length (pendingLookups c) + downReads es"
proof (induction es arbitrary: c)
  case Nil
  then show ?case by simp
next
  case (Cons e es)
  from Cons.IH [of "fst (conn_event parse e c)"] classify_event [of parse e c]
  show ?case
    by (simp only: conn_run.simps downReads_Cons [of e es])
qed

section \<open>The downstream device of a live session\<close>

lemma onConnected_downInv: "downInv c \<Longrightarrow> downInv (onConnected r c)"
  by (auto simp: onConnected_def downInv_def writeData_def flush_def)

lemma fold_onConnected_downInv: "downInv c \<Longrightarrow> downInv (fold onConnected rs c)"
  by (induction rs arbitrary: c) (simp_all add: onConnected_downInv)

lemma downInv_event: "downInv c \<Longrightarrow> downInv (fst (conn_event parse e c))"
proof (cases e)
  case (DownReadyRead d)
  assume "downInv c"
  then show ?thesis
    by (cases "parse (readBuffer (downStream c) @ d)")
       (auto simp: DownReadyRead downStreamReadyRead_def terminate_def qWarning_def
          downInv_def socket_defs Let_def split: option.splits)
next
  case (LookupFinished k addresses)
  obtain host port request where l: "pendingLookups c ! k = (host, port, request)"
    by (cases "pendingLookups c ! k") auto
  assume "downInv c"
  then show ?thesis
    by (cases addresses)
       (auto simp: LookupFinished l lookupFinished_def terminate_def connectToHost_def
          qWarning_def downInv_def socket_defs Let_def)
next
  case UpConnected
  assume d: "downInv c"
  then have "downInv (c\<lparr>upStream := (upStream c)\<lparr>sockState := ConnectedState\<rparr>\<rparr>)"
    by (simp add: downInv_def)
  from fold_onConnected_downInv [OF this] d show ?thesis
    by (auto simp: UpConnected Let_def downInv_def)
qed (auto simp: downInv_def socket_defs terminate_def upStreamReadyRead_def
      qWarning_def Let_def)

lemma downInv_run: "downInv c \<Longrightarrow> downInv (conn_run parse es c)"
  by (induction es arbitrary: c) (simp_all add: downInv_event)

section \<open>The registry\<close>

lemma delete_length:
  "distinct (map fst al) \<Longrightarrow> map_of al k = Some v \<Longrightarrow>
     Suc (length (AList.delete k al)) = length al"
proof (induction al)
  case Nil
  then show ?case by simp
next
  case (Cons x al)
  show ?case
  proof (cases "fst x = k")
    case True
    with Cons.prems have "k \<notin> fst ` set al" by auto
    then have "AList.delete k al = al" by (rule AList.delete_id)
    with True show ?thesis by simp
  next
    case False
    with Cons.prems have "map_of al k = Some v" by (cases x) (auto split: if_splits)
    with Cons False show ?thesis by simp
  qed
qed

lemma onConnectionTerminate_connections:
  "connections (onConnectionTerminate i s) = AList.delete i (connections s)"
proof (cases "map_of (connections s) i")
  case None
  then have "i \<notin> fst ` set (connections s)"
    by (simp add: map_of_eq_None_iff)
  then have "AList.delete i (connections s) = connections s"
    by (rule AList.delete_id)
  with None show ?thesis
    by (simp add: onConnectionTerminate_def qInfoActive_def)
next
  case (Some r)
  then show ?thesis
    by (simp add: onConnectionTerminate_def qInfoActive_def)
qed

lemma onConnectionTerminate_unknown:
  "map_of (connections s) i = None \<Longrightarrow>
     onConnectionTerminate i s
       = s\<lparr>serverLog := serverLog s @ [ActiveConnections (length (connections s))]\<rparr>"
  by (simp add: onConnectionTerminate_def qInfoActive_def)

lemma dispatch_terminate_first:
  assumes o: "objects s r = Some c"
    and m: "map_of (connections s) (conId c) = Some r"
    and b: "\<not> connSignalsBlocked c"
  shows "dispatch r terminate s
     = s\<lparr>objects := (objects s)(r \<mapsto> (fst (terminate c))\<lparr>connSignalsBlocked := True\<rparr>),
         connections := AList.delete (conId c) (connections s),
         deferredDelete := deferredDelete s @ [r],
         serverLog := serverLog s
           @ [ActiveConnections (length (AList.delete (conId c) (connections s)))]\<rparr>"
  using o m b
  by (simp add: dispatch_def terminate_def onConnectionTerminate_def qInfoActive_def Let_def
      fun_upd_twist)

lemma dispatch_terminate_blocked:
  assumes o: "objects s r = Some c"
    and b: "connSignalsBlocked c"
  shows "dispatch r terminate s = s\<lparr>objects := (objects s)(r \<mapsto> fst (terminate c))\<rparr>"
  using o b by (simp add: dispatch_def terminate_def Let_def)

section \<open>The functors of the connected signal\<close>






section \<open>C1: a failed connect attempt\<close>

text \<open>
  C1. The claim: when the connect attempt fails the session terminates. The code at the
  input of scenario D: the request is classified, the lookup returns an address, the
  attempt to it is refused. Qt reports the failure through \<^verbatim>\<open>errorOccurred\<close>, whose slot
  (lines 181 to 183) only logs. The session stays registered, its downstream socket
  stays open and connected, and no \<^verbatim>\<open>terminated\<close> signal reaches the server.
\<close>

theorem connect_failure_leaves_session_alive:
  "connections (server_run (parsesTo reqD)
       [IncomingConnection 7 True,
        SessionEvent 0 (DownReadyRead (''CONNECT host:9999 HTTP/1.1'' @ [CR, LF, CR, LF])),
        SessionEvent 0 (LookupFinished 0 [''192.0.2.1'']),
        SessionEvent 0 UpConnectFailed] newProxyServer) = [(7, 0)]
   \<and> serverLog (server_run (parsesTo reqD)
       [IncomingConnection 7 True,
        SessionEvent 0 (DownReadyRead (''CONNECT host:9999 HTTP/1.1'' @ [CR, LF, CR, LF])),
        SessionEvent 0 (LookupFinished 0 [''192.0.2.1'']),
        SessionEvent 0 UpConnectFailed] newProxyServer) = [ActiveConnections 1]
   \<and> map_option (\<lambda>c. (isOpen (downStream c), signalsBlocked (downStream c),
          sockState (downStream c), sockState (upStream c), connectCalls (upStream c),
          warnings c))
       (objects (server_run (parsesTo reqD)
         [IncomingConnection 7 True,
          SessionEvent 0 (DownReadyRead (''CONNECT host:9999 HTTP/1.1'' @ [CR, LF, CR, LF])),
          SessionEvent 0 (LookupFinished 0 [''192.0.2.1'']),
          SessionEvent 0 UpConnectFailed] newProxyServer) 0)
       = Some (True, False, ConnectedState, UnconnectedState, [(''192.0.2.1'', 9999)],
           [''UpStream error: ''])"
  by (simp add: server_defs socket_defs session_defs key_defs regex_defs reqD_def Let_def)

section \<open>C2: a request with an unsupported method\<close>

text \<open>
  C2. The claim: a completely parsed request whose method is not one of the six
  terminates the session. The code at an OPTIONS request: the test of the method (lines
  210 to 215) has no else branch, so the data is read and dropped, nothing is logged, and
  the session stays registered exactly as it was created.
\<close>

theorem unsupported_method_leaves_session_alive:
  "connections (server_run (parsesTo reqO)
       [IncomingConnection 7 True,
        SessionEvent 0 (DownReadyRead (''OPTIONS example.com:80 HTTP/1.1'' @ [CR, LF, CR, LF]))]
       newProxyServer) = [(7, 0)]
   \<and> serverLog (server_run (parsesTo reqO)
       [IncomingConnection 7 True,
        SessionEvent 0 (DownReadyRead (''OPTIONS example.com:80 HTTP/1.1'' @ [CR, LF, CR, LF]))]
       newProxyServer) = [ActiveConnections 1]
   \<and> objects (server_run (parsesTo reqO)
       [IncomingConnection 7 True,
        SessionEvent 0 (DownReadyRead (''OPTIONS example.com:80 HTTP/1.1'' @ [CR, LF, CR, LF]))]
       newProxyServer) 0 = Some (freshSession 7)"
  by (simp add: server_defs socket_defs session_defs key_defs regex_defs reqO_def Let_def)

section \<open>C3: the reply to a CONNECT request\<close>




section \<open>C4: the target pattern\<close>

text \<open>
  C4, as the claim states it, fails: a target with a scheme, a path or a query is accepted
  whenever it ends in a colon and digits. The target \<^verbatim>\<open>http://example.com:80\<close> matches
  with the host \<^verbatim>\<open>http://example.com\<close>, and the session starts a lookup for it
  instead of terminating.
\<close>

theorem scheme_target_accepted_counterexample:
  "regexMatch ''http://example.com:80'' = Some (''http://example.com'', ''80'')
   \<and> regexMatch ''/path?q=1:80'' = Some (''/path?q=1'', ''80'')
   \<and> pendingLookups (conn_run (parsesTo reqU)
        [DownReadyRead ''GET http://example.com:80 HTTP/1.1''] (freshSession 7))
       = [(''http://example.com'', 80, reqU)]
   \<and> isOpen (downStream (conn_run (parsesTo reqU)
        [DownReadyRead ''GET http://example.com:80 HTTP/1.1''] (freshSession 7)))
   \<and> conn_signals (parsesTo reqU)
        [DownReadyRead ''GET http://example.com:80 HTTP/1.1''] (freshSession 7) = []"
  by (simp add: socket_defs session_defs key_defs regex_defs reqU_def Let_def)

text \<open>
  C4, amended. For a request with a supported method that the downstream slot
  classifies, the target is accepted exactly when it is \<^verbatim>\<open><host>:<digits>\<close>: a non-empty
  run of ASCII digits up to the end (or up to one final line feed) after a colon, and
  before the colon a host part without line feed and otherwise unrestricted. Accepted,
  the session starts one lookup for that host and port and stays open. Not accepted, as
  for \<^verbatim>\<open>/path\<close> and \<^verbatim>\<open>http://host:80/path\<close>, the session terminates: no lookup, no
  \<^verbatim>\<open>connectToHost\<close> call, both sockets closed and blocked, the \<^verbatim>\<open>terminated\<close> signal emitted.
\<close>

theorem target_pattern:
  assumes b: "\<not> signalsBlocked (downStream c)"
    and s: "sockState (upStream c) \<noteq> ConnectedState"
    and p: "parse (readBuffer (downStream c) @ d) = (ParsingCompleted, r)"
    and m: "method r \<in> set [kConnect, kGet, kPut, kPost, kHead, kDelete]"
  shows "(case regexMatch (uri r) of
            Some (h, p) \<Rightarrow>
              (\<exists>e. uri r = h @ '':'' @ p @ e \<and> p \<noteq> [] \<and> set p \<subseteq> set ''0123456789''
                  \<and> (e = [] \<or> e = [LF]) \<and> LF \<notin> set h)
              \<and> pendingLookups (fst (conn_event parse (DownReadyRead d) c))
                  = pendingLookups c @ [(h, toInt p, r)]
              \<and> snd (conn_event parse (DownReadyRead d) c) = []
              \<and> isOpen (downStream (fst (conn_event parse (DownReadyRead d) c)))
                  = isOpen (downStream c)
          | None \<Rightarrow>
              (\<nexists>h p e. uri r = h @ '':'' @ p @ e \<and> p \<noteq> [] \<and> set p \<subseteq> set ''0123456789''
                  \<and> (e = [] \<or> e = [LF]) \<and> LF \<notin> set h)
              \<and> pendingLookups (fst (conn_event parse (DownReadyRead d) c)) = pendingLookups c
              \<and> connectCalls (upStream (fst (conn_event parse (DownReadyRead d) c)))
                  = connectCalls (upStream c)
              \<and> \<not> isOpen (downStream (fst (conn_event parse (DownReadyRead d) c)))
              \<and> \<not> isOpen (upStream (fst (conn_event parse (DownReadyRead d) c)))
              \<and> signalsBlocked (downStream (fst (conn_event parse (DownReadyRead d) c)))
              \<and> signalsBlocked (upStream (fst (conn_event parse (DownReadyRead d) c)))
              \<and> snd (conn_event parse (DownReadyRead d) c)
                  = (if connSignalsBlocked c then [] else [conId c]))"
proof -
  have dg: "(\<forall>c\<in>set p. isDigit c) = (set p \<subseteq> set ''0123456789'')" for p
    unfolding isDigit_def by blast
  let ?c = "c\<lparr>downStream := (downStream c)\<lparr>readBuffer := []\<rparr>\<rparr>"
  show ?thesis
  proof (cases "regexMatch (uri r)")
    case None
    have ev: "conn_event parse (DownReadyRead d) c = terminate (qWarning ''Invaid URI found!'' ?c)"
      using b s p m None by (auto simp: downStreamReadyRead_def receive_def Let_def)
    have "\<nexists>h p e. uri r = h @ '':'' @ p @ e \<and> p \<noteq> [] \<and> set p \<subseteq> set ''0123456789''
                  \<and> (e = [] \<or> e = [LF]) \<and> LF \<notin> set h"
    proof
      assume "\<exists>h p e. uri r = h @ '':'' @ p @ e \<and> p \<noteq> [] \<and> set p \<subseteq> set ''0123456789''
                  \<and> (e = [] \<or> e = [LF]) \<and> LF \<notin> set h"
      then obtain h p e where "uri r = h @ '':'' @ p @ e \<and> p \<noteq> [] \<and> (\<forall>c\<in>set p. isDigit c)
                  \<and> (e = [] \<or> e = [LF]) \<and> LF \<notin> set h"
        unfolding dg by blast
      then have "regexMatch (uri r) = Some (h, p)"
        unfolding regexMatch_iff by blast
      with None show False by simp
    qed
    then show ?thesis
      unfolding ev by (simp add: None terminate_props qWarning_def)
  next
    case (Some hp)
    obtain h q where hp: "hp = (h, q)" by (cases hp)
    have ev: "conn_event parse (DownReadyRead d) c
        = (?c\<lparr>pendingLookups := pendingLookups c @ [(h, toInt q, r)]\<rparr>, [])"
      using b s p m Some hp by (auto simp: downStreamReadyRead_def receive_def Let_def)
    from Some hp have "regexMatch (uri r) = Some (h, q)" by simp
    from this [unfolded regexMatch_iff dg]
    have "\<exists>e. uri r = h @ '':'' @ q @ e \<and> q \<noteq> [] \<and> set q \<subseteq> set ''0123456789''
                  \<and> (e = [] \<or> e = [LF]) \<and> LF \<notin> set h" .
    then show ?thesis
      unfolding ev by (simp add: Some hp)
  qed
qed

theorem target_pattern_witness:
  "\<not> signalsBlocked (downStream (freshSession 7))
   \<and> sockState (upStream (freshSession 7)) \<noteq> ConnectedState
   \<and> parsesTo reqC (readBuffer (downStream (freshSession 7)) @ ''GET /path HTTP/1.1'')
       = (ParsingCompleted, reqC)
   \<and> method reqC \<in> set [kConnect, kGet, kPut, kPost, kHead, kDelete]
   \<and> regexMatch (uri reqC) = None
   \<and> regexMatch ''http://host:80/path'' = None
   \<and> pendingLookups (fst (conn_event (parsesTo reqC) (DownReadyRead ''GET /path HTTP/1.1'')
        (freshSession 7))) = []
   \<and> connectCalls (upStream (fst (conn_event (parsesTo reqC)
        (DownReadyRead ''GET /path HTTP/1.1'') (freshSession 7)))) = []
   \<and> \<not> isOpen (downStream (fst (conn_event (parsesTo reqC)
        (DownReadyRead ''GET /path HTTP/1.1'') (freshSession 7))))
   \<and> snd (conn_event (parsesTo reqC) (DownReadyRead ''GET /path HTTP/1.1'') (freshSession 7))
       = [7]"
proof -
  have b: "\<not> signalsBlocked (downStream (freshSession 7))"
    by (simp add: socket_defs session_defs)
  have s: "sockState (upStream (freshSession 7)) \<noteq> ConnectedState"
    by (simp add: socket_defs session_defs)
  have p: "parsesTo reqC (readBuffer (downStream (freshSession 7)) @ ''GET /path HTTP/1.1'')
       = (ParsingCompleted, reqC)"
    by (simp add: parsesTo_def)
  have m: "method reqC \<in> set [kConnect, kGet, kPut, kPost, kHead, kDelete]"
    by (simp add: reqC_def key_defs)
  have n: "regexMatch (uri reqC) = None" "regexMatch ''http://host:80/path'' = None"
    by (simp_all add: reqC_def regex_defs)
  have f: "pendingLookups (freshSession 7) = []" "connectCalls (upStream (freshSession 7)) = []"
    "connSignalsBlocked (freshSession 7) = False" "conId (freshSession 7) = 7"
    by (simp_all add: socket_defs session_defs)
  from target_pattern [OF b s, of "parsesTo reqC" "''GET /path HTTP/1.1''" reqC, OF p m]
  show ?thesis
    unfolding n option.case f using b s p m by simp
qed

section \<open>C5: the completion of the host lookup\<close>



section \<open>C6: termination and the registry\<close>

text \<open>
  C6. Handling the termination signal is idempotent on the registry: handling it a
  second time for the same id changes nothing, and an id that is not registered leaves
  the registry, the objects and the pending deletions as they are. The first handling
  removes exactly the entry of that id. When \<^verbatim>\<open>terminate\<close> runs twice on a registered
  session, the slot of the server runs once (one line in its log, one entry removed, one
  deferred deletion): the second signal is not delivered, because the slot has blocked
  the signals of the session.
\<close>

theorem termination_idempotent:
  "connections (onConnectionTerminate i (onConnectionTerminate i s))
     = connections (onConnectionTerminate i s)
   \<and> map_of (connections (onConnectionTerminate i s)) = (map_of (connections s))(i := None)
   \<and> (map_of (connections s) i = None \<longrightarrow>
        connections (onConnectionTerminate i s) = connections s
      \<and> objects (onConnectionTerminate i s) = objects s
      \<and> deferredDelete (onConnectionTerminate i s) = deferredDelete s)
   \<and> (objects s r = Some c \<and> map_of (connections s) (conId c) = Some r
        \<and> \<not> connSignalsBlocked c \<and> distinct (map fst (connections s)) \<longrightarrow>
        map_of (connections (dispatch r terminate s)) = (map_of (connections s))(conId c := None)
      \<and> Suc (length (connections (dispatch r terminate s))) = length (connections s)
      \<and> serverLog (dispatch r terminate s)
          = serverLog s @ [ActiveConnections (length (connections (dispatch r terminate s)))]
      \<and> deferredDelete (dispatch r terminate s) = deferredDelete s @ [r]
      \<and> connections (dispatch r terminate (dispatch r terminate s))
          = connections (dispatch r terminate s)
      \<and> serverLog (dispatch r terminate (dispatch r terminate s))
          = serverLog (dispatch r terminate s)
      \<and> deferredDelete (dispatch r terminate (dispatch r terminate s))
          = deferredDelete (dispatch r terminate s))"
proof -
  have 1: "connections (onConnectionTerminate i (onConnectionTerminate i s))
     = connections (onConnectionTerminate i s)"
    by (simp only: onConnectionTerminate_connections AList.delete_idem)
  have 2: "map_of (connections (onConnectionTerminate i s)) = (map_of (connections s))(i := None)"
    by (simp only: onConnectionTerminate_connections AList.delete_conv')
  have 3: "map_of (connections s) i = None \<longrightarrow>
        connections (onConnectionTerminate i s) = connections s
      \<and> objects (onConnectionTerminate i s) = objects s
      \<and> deferredDelete (onConnectionTerminate i s) = deferredDelete s"
    by (simp add: onConnectionTerminate_unknown)
  have 4: "objects s r = Some c \<and> map_of (connections s) (conId c) = Some r
        \<and> \<not> connSignalsBlocked c \<and> distinct (map fst (connections s)) \<longrightarrow>
        map_of (connections (dispatch r terminate s)) = (map_of (connections s))(conId c := None)
      \<and> Suc (length (connections (dispatch r terminate s))) = length (connections s)
      \<and> serverLog (dispatch r terminate s)
          = serverLog s @ [ActiveConnections (length (connections (dispatch r terminate s)))]
      \<and> deferredDelete (dispatch r terminate s) = deferredDelete s @ [r]
      \<and> connections (dispatch r terminate (dispatch r terminate s))
          = connections (dispatch r terminate s)
      \<and> serverLog (dispatch r terminate (dispatch r terminate s))
          = serverLog (dispatch r terminate s)
      \<and> deferredDelete (dispatch r terminate (dispatch r terminate s))
          = deferredDelete (dispatch r terminate s)"
  proof
    assume a: "objects s r = Some c \<and> map_of (connections s) (conId c) = Some r
        \<and> \<not> connSignalsBlocked c \<and> distinct (map fst (connections s))"
    then have o: "objects s r = Some c" and m: "map_of (connections s) (conId c) = Some r"
      and b: "\<not> connSignalsBlocked c" and d: "distinct (map fst (connections s))"
      by simp_all
    let ?s1 = "dispatch r terminate s"
    let ?c1 = "(fst (terminate c))\<lparr>connSignalsBlocked := True\<rparr>"
    note f = dispatch_terminate_first [OF o m b]
    have o1: "objects ?s1 r = Some ?c1" by (simp add: f)
    have b1: "connSignalsBlocked ?c1" by simp
    note g = dispatch_terminate_blocked [OF o1 b1]
    have c1: "connections ?s1 = AList.delete (conId c) (connections s)" by (simp add: f)
    have l1: "serverLog ?s1 = serverLog s
        @ [ActiveConnections (length (AList.delete (conId c) (connections s)))]"
      by (simp add: f)
    have d1: "deferredDelete ?s1 = deferredDelete s @ [r]" by (simp add: f)
    have c2: "connections (dispatch r terminate ?s1) = connections ?s1"
      and l2: "serverLog (dispatch r terminate ?s1) = serverLog ?s1"
      and d2: "deferredDelete (dispatch r terminate ?s1) = deferredDelete ?s1"
      by (simp_all add: g)
    show "map_of (connections ?s1) = (map_of (connections s))(conId c := None)
      \<and> Suc (length (connections ?s1)) = length (connections s)
      \<and> serverLog ?s1 = serverLog s @ [ActiveConnections (length (connections ?s1))]
      \<and> deferredDelete ?s1 = deferredDelete s @ [r]
      \<and> connections (dispatch r terminate ?s1) = connections ?s1
      \<and> serverLog (dispatch r terminate ?s1) = serverLog ?s1
      \<and> deferredDelete (dispatch r terminate ?s1) = deferredDelete ?s1"
      using delete_length [OF d m] c2 l2 d2 d1
      by (simp add: c1 l1 AList.delete_conv')
  qed
  from 1 2 3 4 show ?thesis by (intro conjI)
qed


theorem termination_idempotent_witness:
  "objects (server_run (parsesTo reqA) [IncomingConnection 7 True, IncomingConnection 8 True]
       newProxyServer) 0 = Some (freshSession 7)
   \<and> map_of (connections (server_run (parsesTo reqA)
       [IncomingConnection 7 True, IncomingConnection 8 True] newProxyServer))
       (conId (freshSession 7)) = Some 0
   \<and> \<not> connSignalsBlocked (freshSession 7)
   \<and> distinct (map fst (connections (server_run (parsesTo reqA)
       [IncomingConnection 7 True, IncomingConnection 8 True] newProxyServer)))
   \<and> map_of (connections (server_run (parsesTo reqA)
       [IncomingConnection 7 True, IncomingConnection 8 True] newProxyServer)) 99 = None
   \<and> connections (dispatch 0 terminate (server_run (parsesTo reqA)
       [IncomingConnection 7 True, IncomingConnection 8 True] newProxyServer)) = [(8, 1)]
   \<and> connections (dispatch 0 terminate (dispatch 0 terminate (server_run (parsesTo reqA)
       [IncomingConnection 7 True, IncomingConnection 8 True] newProxyServer))) = [(8, 1)]
   \<and> serverLog (dispatch 0 terminate (dispatch 0 terminate (server_run (parsesTo reqA)
       [IncomingConnection 7 True, IncomingConnection 8 True] newProxyServer)))
       = [ActiveConnections 1, ActiveConnections 2, ActiveConnections 1]
   \<and> connections (onConnectionTerminate 99 (server_run (parsesTo reqA)
       [IncomingConnection 7 True, IncomingConnection 8 True] newProxyServer))
       = [(7, 0), (8, 1)]
   \<and> serverLog (server_run (parsesTo reqA)
       [IncomingConnection 7 True,
        SessionEvent 0 (DownReadyRead ''CONNECT example.com:443 HTTP/1.1''),
        SessionEvent 0 DownDisconnected, SessionEvent 0 (LookupFinished 0 [])] newProxyServer)
       = [ActiveConnections 1, ActiveConnections 0]"
proof -
  let ?s = "server_run (parsesTo reqA) [IncomingConnection 7 True, IncomingConnection 8 True]
       newProxyServer"
  have s: "?s = \<lparr>connections = [(7, 0), (8, 1)],
       objects = [0 \<mapsto> freshSession 7, 1 \<mapsto> freshSession 8],
       deferredDelete = [], nextObject = 2,
       serverLog = [ActiveConnections 1, ActiveConnections 2]\<rparr>"
    by (simp add: server_defs freshSession_def)
  have h: "objects ?s 0 = Some (freshSession 7)"
    "map_of (connections ?s) (conId (freshSession 7)) = Some 0"
    "\<not> connSignalsBlocked (freshSession 7)"
    "distinct (map fst (connections ?s))"
    "map_of (connections ?s) 99 = None"
    unfolding s by (simp_all add: freshSession_def newProxyConnection_def)
  have e: "serverLog (server_run (parsesTo reqA)
       [IncomingConnection 7 True,
        SessionEvent 0 (DownReadyRead ''CONNECT example.com:443 HTTP/1.1''),
        SessionEvent 0 DownDisconnected, SessionEvent 0 (LookupFinished 0 [])] newProxyServer)
       = [ActiveConnections 1, ActiveConnections 0]"
    by (simp add: server_defs socket_defs session_defs key_defs regex_defs reqA_def Let_def)
  from termination_idempotent [of 99 ?s 0 "freshSession 7"] h
  have "connections (onConnectionTerminate 99 ?s) = connections ?s
    \<and> map_of (connections (dispatch 0 terminate ?s)) = (map_of (connections ?s))(7 := None)
    \<and> Suc (length (connections (dispatch 0 terminate ?s))) = length (connections ?s)
    \<and> serverLog (dispatch 0 terminate ?s)
          = serverLog ?s @ [ActiveConnections (length (connections (dispatch 0 terminate ?s)))]
    \<and> connections (dispatch 0 terminate (dispatch 0 terminate ?s))
          = connections (dispatch 0 terminate ?s)
    \<and> serverLog (dispatch 0 terminate (dispatch 0 terminate ?s))
          = serverLog (dispatch 0 terminate ?s)"
    by (simp add: freshSession_def newProxyConnection_def)
  moreover have "connections (dispatch 0 terminate ?s) = [(8, 1)]"
    unfolding s by (simp add: server_defs socket_defs session_defs Let_def)
  ultimately show ?thesis
    using h e unfolding s by simp
qed

section \<open>C7: how often a session classifies and connects\<close>

text \<open>
  C7, as the claim states it, fails: the downstream slot classifies every chunk that
  arrives while the upstream socket is not connected, not only the first. Two chunks
  before the connection start two lookups and lead to two \<^verbatim>\<open>connectToHost\<close> calls; after
  a failed attempt a further chunk leads to a second attempt, to another address.
\<close>

theorem second_classification_counterexample:
  "length (pendingLookups (conn_run (parsesTo reqA)
       [DownReadyRead ''CONNECT example.com:443 HTTP/1.1'',
        DownReadyRead ''CONNECT example.com:443 HTTP/1.1''] (freshSession 7))) = 2
   \<and> connectCalls (upStream (conn_run (parsesTo reqA)
       [DownReadyRead ''CONNECT example.com:443 HTTP/1.1'',
        DownReadyRead ''CONNECT example.com:443 HTTP/1.1'',
        LookupFinished 0 [''93.184.216.34''], LookupFinished 0 [''93.184.216.35'']]
       (freshSession 7)))
     = [(''93.184.216.34'', 443), (''93.184.216.35'', 443)]
   \<and> connectCalls (upStream (conn_run (parsesTo reqA)
       [DownReadyRead ''CONNECT example.com:443 HTTP/1.1'', LookupFinished 0 [''93.184.216.34''],
        UpConnectFailed, DownReadyRead ''CONNECT example.com:443 HTTP/1.1'',
        LookupFinished 0 [''93.184.216.35''], UpConnected] (freshSession 7)))
     = [(''93.184.216.34'', 443), (''93.184.216.35'', 443)]
   \<and> sockState (upStream (conn_run (parsesTo reqA)
       [DownReadyRead ''CONNECT example.com:443 HTTP/1.1'', LookupFinished 0 [''93.184.216.34''],
        UpConnectFailed, DownReadyRead ''CONNECT example.com:443 HTTP/1.1'',
        LookupFinished 0 [''93.184.216.35''], UpConnected] (freshSession 7)))
     = ConnectedState"
  by (simp add: socket_defs session_defs key_defs regex_defs reqA_def Let_def)

text \<open>
  C7, amended. A chunk that the downstream slot reads while the upstream socket is not
  connected is classified, whether or not it is the first, and a supported request with
  an accepted target then starts a lookup. Each chunk starts at most one lookup and each
  lookup makes at most one \<^verbatim>\<open>connectToHost\<close> call: the calls made and the lookups pending
  never exceed the number of downstream chunks. Once the upstream socket is connected, a
  downstream chunk starts no lookup, makes no \<^verbatim>\<open>connectToHost\<close> call and connects no slot.
\<close>

theorem classification_while_unconnected:
  "length (connectCalls (upStream (conn_run parse es (freshSession i))))
     + length (pendingLookups (conn_run parse es (freshSession i))) \<le> downReads es
   \<and> (sockState (upStream c) = ConnectedState \<longrightarrow>
        pendingLookups (fst (conn_event parse (DownReadyRead d) c)) = pendingLookups c
      \<and> connectCalls (upStream (fst (conn_event parse (DownReadyRead d) c)))
          = connectCalls (upStream c)
      \<and> connectedSlots (fst (conn_event parse (DownReadyRead d) c)) = connectedSlots c
      \<and> snd (conn_event parse (DownReadyRead d) c) = [])
   \<and> (\<not> signalsBlocked (downStream c) \<and> sockState (upStream c) \<noteq> ConnectedState
        \<and> parse (readBuffer (downStream c) @ d) = (ParsingCompleted, r)
        \<and> method r \<in> set [kConnect, kGet, kPut, kPost, kHead, kDelete]
        \<and> regexMatch (uri r) = Some (h, p) \<longrightarrow>
        pendingLookups (fst (conn_event parse (DownReadyRead d) c))
          = pendingLookups c @ [(h, toInt p, r)])"
proof -
  have 1: "length (connectCalls (upStream (conn_run parse es (freshSession i))))
     + length (pendingLookups (conn_run parse es (freshSession i))) \<le> downReads es"
    using classify_run [of parse es "freshSession i"]
    by (simp add: freshSession_def newProxyConnection_def newSocket_def)
  have 2: "sockState (upStream c) = ConnectedState \<longrightarrow>
        pendingLookups (fst (conn_event parse (DownReadyRead d) c)) = pendingLookups c
      \<and> connectCalls (upStream (fst (conn_event parse (DownReadyRead d) c)))
          = connectCalls (upStream c)
      \<and> connectedSlots (fst (conn_event parse (DownReadyRead d) c)) = connectedSlots c
      \<and> snd (conn_event parse (DownReadyRead d) c) = []"
    by (simp add: downStreamReadyRead_def receive_def writeData_def flush_def Let_def)
  have 3: "\<not> signalsBlocked (downStream c) \<and> sockState (upStream c) \<noteq> ConnectedState
        \<and> parse (readBuffer (downStream c) @ d) = (ParsingCompleted, r)
        \<and> method r \<in> set [kConnect, kGet, kPut, kPost, kHead, kDelete]
        \<and> regexMatch (uri r) = Some (h, p) \<longrightarrow>
        pendingLookups (fst (conn_event parse (DownReadyRead d) c))
          = pendingLookups c @ [(h, toInt p, r)]"
    by (auto simp: downStreamReadyRead_def receive_def Let_def)
  from 1 2 3 show ?thesis by (intro conjI)
qed

theorem classification_while_unconnected_witness:
  "sockState (upStream (conn_run (parsesTo reqA)
       [DownReadyRead ''CONNECT example.com:443 HTTP/1.1'', LookupFinished 0 [''93.184.216.34''],
        UpConnected] (freshSession 7))) = ConnectedState
   \<and> pendingLookups (conn_run (parsesTo reqA)
       [DownReadyRead ''CONNECT example.com:443 HTTP/1.1'', LookupFinished 0 [''93.184.216.34''],
        UpConnected, DownReadyRead ''CONNECT example.com:443 HTTP/1.1''] (freshSession 7)) = []
   \<and> connectCalls (upStream (conn_run (parsesTo reqA)
       [DownReadyRead ''CONNECT example.com:443 HTTP/1.1'', LookupFinished 0 [''93.184.216.34''],
        UpConnected, DownReadyRead ''CONNECT example.com:443 HTTP/1.1''] (freshSession 7)))
       = [(''93.184.216.34'', 443)]
   \<and> downReads [DownReadyRead ''CONNECT example.com:443 HTTP/1.1'',
        LookupFinished 0 [''93.184.216.34''], UpConnected,
        DownReadyRead ''CONNECT example.com:443 HTTP/1.1''] = 2
   \<and> pendingLookups (conn_run (parsesTo reqA)
       [DownReadyRead ''CONNECT example.com:443 HTTP/1.1'',
        DownReadyRead ''CONNECT example.com:443 HTTP/1.1''] (freshSession 7))
       = [(''example.com'', 443, reqA), (''example.com'', 443, reqA)]"
proof -
  let ?d = "''CONNECT example.com:443 HTTP/1.1''"
  let ?c = "conn_run (parsesTo reqA) [DownReadyRead ?d, LookupFinished 0 [''93.184.216.34''],
        UpConnected] (freshSession 7)"
  let ?c1 = "conn_run (parsesTo reqA) [DownReadyRead ?d] (freshSession 7)"
  have s: "sockState (upStream ?c) = ConnectedState"
    by (simp add: socket_defs session_defs key_defs regex_defs reqA_def Let_def)
  have u: "\<not> signalsBlocked (downStream ?c1) \<and> sockState (upStream ?c1) \<noteq> ConnectedState
        \<and> parsesTo reqA (readBuffer (downStream ?c1) @ ?d) = (ParsingCompleted, reqA)
        \<and> method reqA \<in> set [kConnect, kGet, kPut, kPost, kHead, kDelete]
        \<and> regexMatch (uri reqA) = Some (''example.com'', ''443'')"
    by (simp add: socket_defs session_defs key_defs regex_defs reqA_def Let_def)
  show ?thesis
    using s u
      classification_while_unconnected [of "parsesTo reqA"
        "[DownReadyRead ?d, LookupFinished 0 [''93.184.216.34''], UpConnected, DownReadyRead ?d]"
        7 ?c ?d reqA "''example.com''" "''443''"]
      classification_while_unconnected [of "parsesTo reqA" "[]" 7 ?c1 ?d reqA
        "''example.com''" "''443''"]
    by (simp add: socket_defs session_defs key_defs regex_defs reqA_def Let_def)
qed

section \<open>C8: callbacks after termination\<close>

text \<open>
  C8, as the claim states it, fails: the functor of the host lookup has no check of the
  session's state. A session terminates while its lookup is pending and is removed from
  the registry; its object lives until the deferred deletion. The lookup that completes
  before that runs the functor, which calls \<^verbatim>\<open>connectToHost\<close> on the closed upstream socket
  and starts a connect attempt.
\<close>

theorem late_lookup_counterexample:
  "connections (server_run (parsesTo reqA)
       [IncomingConnection 7 True,
        SessionEvent 0 (DownReadyRead ''CONNECT example.com:443 HTTP/1.1''),
        SessionEvent 0 DownDisconnected] newProxyServer) = []
   \<and> map_option (\<lambda>c. (isOpen (upStream c), signalsBlocked (upStream c),
          connectCalls (upStream c), pendingLookups c))
       (objects (server_run (parsesTo reqA)
         [IncomingConnection 7 True,
          SessionEvent 0 (DownReadyRead ''CONNECT example.com:443 HTTP/1.1''),
          SessionEvent 0 DownDisconnected] newProxyServer) 0)
       = Some (False, True, [], [(''example.com'', 443, reqA)])
   \<and> map_option (\<lambda>c. (isOpen (upStream c), sockState (upStream c),
          connectCalls (upStream c), connectedSlots c))
       (objects (server_run (parsesTo reqA)
         [IncomingConnection 7 True,
          SessionEvent 0 (DownReadyRead ''CONNECT example.com:443 HTTP/1.1''),
          SessionEvent 0 DownDisconnected,
          SessionEvent 0 (LookupFinished 0 [''93.184.216.34''])] newProxyServer) 0)
       = Some (True, ConnectingState, [(''93.184.216.34'', 443)], [reqA])"
  by (simp add: server_defs socket_defs session_defs key_defs regex_defs reqA_def Let_def)

text \<open>
  C8, amended. \<^verbatim>\<open>terminate\<close> blocks the signals of both sockets, and from then on no signal
  of either socket (\<^verbatim>\<open>readyRead\<close>, \<^verbatim>\<open>disconnected\<close>, \<^verbatim>\<open>connected\<close>, \<^verbatim>\<open>errorOccurred\<close>) runs
  a slot of the session: nothing is written, logged, looked up or connected, and no
  \<^verbatim>\<open>terminated\<close> signal is emitted. The deferred deletion destroys the object of a session
  removed from the registry, and once the object is destroyed no callback at all, the
  completion of a host lookup included, is processed for it.
\<close>

theorem terminated_session_runs_no_socket_slot:
  "signalsBlocked (downStream (fst (terminate c0)))
   \<and> signalsBlocked (upStream (fst (terminate c0)))
   \<and> (signalsBlocked (downStream c) \<and> signalsBlocked (upStream c) \<and> socketSignal e \<longrightarrow>
        snd (conn_event parse e c) = []
      \<and> signalsBlocked (downStream (fst (conn_event parse e c)))
      \<and> signalsBlocked (upStream (fst (conn_event parse e c)))
      \<and> sent (downStream (fst (conn_event parse e c))) = sent (downStream c)
      \<and> writeBuffer (downStream (fst (conn_event parse e c))) = writeBuffer (downStream c)
      \<and> sent (upStream (fst (conn_event parse e c))) = sent (upStream c)
      \<and> writeBuffer (upStream (fst (conn_event parse e c))) = writeBuffer (upStream c)
      \<and> connectCalls (upStream (fst (conn_event parse e c))) = connectCalls (upStream c)
      \<and> pendingLookups (fst (conn_event parse e c)) = pendingLookups c
      \<and> connectedSlots (fst (conn_event parse e c)) = connectedSlots c
      \<and> warnings (fst (conn_event parse e c)) = warnings c)
   \<and> (r \<in> set (deferredDelete s) \<longrightarrow>
        objects (server_event parse (DeferredDelete r) s) r = None)
   \<and> (objects s r = None \<longrightarrow> server_event parse (SessionEvent r e') s = s)"
proof -
  have 1: "signalsBlocked (downStream (fst (terminate c0)))"
    and 2: "signalsBlocked (upStream (fst (terminate c0)))"
    by (simp_all only: terminate_props)
  have 3: "signalsBlocked (downStream c) \<and> signalsBlocked (upStream c) \<and> socketSignal e \<longrightarrow>
        snd (conn_event parse e c) = []
      \<and> signalsBlocked (downStream (fst (conn_event parse e c)))
      \<and> signalsBlocked (upStream (fst (conn_event parse e c)))
      \<and> sent (downStream (fst (conn_event parse e c))) = sent (downStream c)
      \<and> writeBuffer (downStream (fst (conn_event parse e c))) = writeBuffer (downStream c)
      \<and> sent (upStream (fst (conn_event parse e c))) = sent (upStream c)
      \<and> writeBuffer (upStream (fst (conn_event parse e c))) = writeBuffer (upStream c)
      \<and> connectCalls (upStream (fst (conn_event parse e c))) = connectCalls (upStream c)
      \<and> pendingLookups (fst (conn_event parse e c)) = pendingLookups c
      \<and> connectedSlots (fst (conn_event parse e c)) = connectedSlots c
      \<and> warnings (fst (conn_event parse e c)) = warnings c"
    using blocked_socket_signal [of c e parse] by blast
  have 4: "r \<in> set (deferredDelete s) \<longrightarrow>
        objects (server_event parse (DeferredDelete r) s) r = None"
    by simp
  have 5: "objects s r = None \<longrightarrow> server_event parse (SessionEvent r e') s = s"
    by (simp add: dispatch_def)
  from 1 2 3 4 5 show ?thesis by (intro conjI)
qed

theorem terminated_session_runs_no_socket_slot_witness:
  "signalsBlocked (downStream (fst (terminate (freshSession 7))))
   \<and> signalsBlocked (upStream (fst (terminate (freshSession 7))))
   \<and> socketSignal (UpReadyRead ''late'')
   \<and> conn_event (parsesTo reqA) (UpReadyRead ''late'') (fst (terminate (freshSession 7)))
       = ((fst (terminate (freshSession 7)))
            \<lparr>upStream := receive ''late'' (upStream (fst (terminate (freshSession 7))))\<rparr>, [])
   \<and> sent (downStream (fst (conn_event (parsesTo reqA) (UpReadyRead ''late'')
        (fst (terminate (freshSession 7)))))) = []
   \<and> 0 \<in> set (deferredDelete (server_run (parsesTo reqA)
        [IncomingConnection 7 True,
         SessionEvent 0 (DownReadyRead ''CONNECT example.com:443 HTTP/1.1''),
         SessionEvent 0 DownDisconnected] newProxyServer))
   \<and> objects (server_run (parsesTo reqA)
        [IncomingConnection 7 True,
         SessionEvent 0 (DownReadyRead ''CONNECT example.com:443 HTTP/1.1''),
         SessionEvent 0 DownDisconnected, DeferredDelete 0] newProxyServer) 0 = None
   \<and> server_run (parsesTo reqA)
        [IncomingConnection 7 True,
         SessionEvent 0 (DownReadyRead ''CONNECT example.com:443 HTTP/1.1''),
         SessionEvent 0 DownDisconnected, DeferredDelete 0,
         SessionEvent 0 (LookupFinished 0 [''93.184.216.34''])] newProxyServer
       = server_run (parsesTo reqA)
        [IncomingConnection 7 True,
         SessionEvent 0 (DownReadyRead ''CONNECT example.com:443 HTTP/1.1''),
         SessionEvent 0 DownDisconnected, DeferredDelete 0] newProxyServer"
proof -
  let ?t = "fst (terminate (freshSession 7))"
  let ?s = "server_run (parsesTo reqA)
        [IncomingConnection 7 True,
         SessionEvent 0 (DownReadyRead ''CONNECT example.com:443 HTTP/1.1''),
         SessionEvent 0 DownDisconnected] newProxyServer"
  have d: "0 \<in> set (deferredDelete ?s)"
    by (simp add: server_defs socket_defs session_defs key_defs regex_defs reqA_def Let_def)
  have n: "objects (server_event (parsesTo reqA) (DeferredDelete 0) ?s) 0 = None"
    using terminated_session_runs_no_socket_slot [of "freshSession 7" ?t "UpReadyRead ''late''"
        "parsesTo reqA" 0 ?s "LookupFinished 0 [''93.184.216.34'']"] d
    by blast
  have r: "server_run (parsesTo reqA)
        [IncomingConnection 7 True,
         SessionEvent 0 (DownReadyRead ''CONNECT example.com:443 HTTP/1.1''),
         SessionEvent 0 DownDisconnected, DeferredDelete 0] newProxyServer
      = server_event (parsesTo reqA) (DeferredDelete 0) ?s"
    by (simp add: server_defs socket_defs session_defs key_defs regex_defs reqA_def Let_def)
  show ?thesis
    using d n
      terminated_session_runs_no_socket_slot [of "freshSession 7" ?t "UpReadyRead ''late''"
        "parsesTo reqA" 0 "server_event (parsesTo reqA) (DeferredDelete 0) ?s"
        "LookupFinished 0 [''93.184.216.34'']"]
    by (simp add: server_defs socket_defs session_defs key_defs regex_defs reqA_def Let_def)
qed

section \<open>C9: what the upstream peer receives\<close>

text \<open>
  C9. Whatever the events of a session, the bytes sent to the upstream peer are exactly
  the bytes read by the downstream \<^verbatim>\<open>readyRead\<close> slots that ran while the upstream socket
  was connected, in order. The bytes read while it was not connected, the request among
  them, are classified and dropped: the first chunk of a session is never forwarded.
\<close>

theorem upstream_receives_only_relayed:
  "sent (upStream (conn_run parse es (freshSession i))) = forwarded parse es (freshSession i)
   \<and> forwarded parse (DownReadyRead d # es) (freshSession i)
       = forwarded parse es (fst (conn_event parse (DownReadyRead d) (freshSession i)))"
proof -
  have "upInv (upStream (freshSession i))"
    by (simp add: upInv_def freshSession_def newProxyConnection_def newSocket_def)
  from relay_run [OF this, of parse es]
  show ?thesis
    by (simp add: freshSession_def newProxyConnection_def newSocket_def)
qed

theorem upstream_receives_only_relayed_witness:
  "sent (upStream (conn_run (parsesTo reqG)
      [DownReadyRead ''GET example.com:80 HTTP/1.1'', DownReadyRead ''early'',
       LookupFinished 0 [''93.184.216.34''], UpConnected, DownReadyRead ''abc'',
       UpReadyRead ''xyz'', DownReadyRead ''def''] (freshSession 7))) = ''abcdef''"
  using upstream_receives_only_relayed [of "parsesTo reqG"
      "[DownReadyRead ''GET example.com:80 HTTP/1.1'', DownReadyRead ''early'',
       LookupFinished 0 [''93.184.216.34''], UpConnected, DownReadyRead ''abc'',
       UpReadyRead ''xyz'', DownReadyRead ''def'']" 7]
  by (simp add: socket_defs session_defs key_defs regex_defs reqG_def Let_def)

section \<open>C10: the upstream-to-downstream relay\<close>

text \<open>
  C10. In every state a session reaches in which the signals of its upstream socket are
  not blocked, a \<^verbatim>\<open>readyRead\<close> of the upstream socket sends all the bytes available on it
  to the downstream peer and leaves nothing unflushed, whatever the state of the upstream
  socket and whether or not a reply to CONNECT has been written: the slot checks
  nothing. (\<^verbatim>\<open>terminate\<close> blocks the signals; no \<^verbatim>\<open>readyRead\<close> reaches the slot after it.)
\<close>

theorem upstream_relay_unguarded:
  assumes b: "\<not> signalsBlocked (upStream (conn_run parse es (freshSession i)))"
  shows "sent (downStream (conn_run parse (es @ [UpReadyRead d]) (freshSession i)))
           = sent (downStream (conn_run parse es (freshSession i)))
             @ readBuffer (upStream (conn_run parse es (freshSession i))) @ d
       \<and> writeBuffer (downStream (conn_run parse (es @ [UpReadyRead d]) (freshSession i))) = []
       \<and> readBuffer (upStream (conn_run parse (es @ [UpReadyRead d]) (freshSession i))) = []
       \<and> sockState (upStream (conn_run parse (es @ [UpReadyRead d]) (freshSession i)))
           = sockState (upStream (conn_run parse es (freshSession i)))"
proof -
  let ?c = "conn_run parse es (freshSession i)"
  have r: "conn_run parse (es @ es') c = conn_run parse es' (conn_run parse es c)" for es' c
    by (induction es arbitrary: c) simp_all
  have "downInv (freshSession i)"
    by (simp add: downInv_def freshSession_def newProxyConnection_def acceptedSocket_def
        newSocket_def)
  then have "downInv ?c" by (rule downInv_run)
  with b have o: "isOpen (downStream ?c)" and w: "writeBuffer (downStream ?c) = []"
    by (simp_all add: downInv_def)
  show ?thesis
    unfolding r using b o w
    by (simp add: upStreamReadyRead_def receive_def writeData_def flush_def Let_def)
qed

theorem upstream_relay_unguarded_witness:
  "\<not> signalsBlocked (upStream (conn_run (parsesTo reqA)
       [DownReadyRead ''CONNECT example.com:443 HTTP/1.1'', LookupFinished 0 [''93.184.216.34'']]
       (freshSession 7)))
   \<and> sockState (upStream (conn_run (parsesTo reqA)
       [DownReadyRead ''CONNECT example.com:443 HTTP/1.1'', LookupFinished 0 [''93.184.216.34'']]
       (freshSession 7))) = ConnectingState
   \<and> sent (downStream (conn_run (parsesTo reqA)
       ([DownReadyRead ''CONNECT example.com:443 HTTP/1.1'', LookupFinished 0 [''93.184.216.34'']]
        @ [UpReadyRead ''xyz'']) (freshSession 7))) = ''xyz''
   \<and> \<not> signalsBlocked (upStream (conn_run (parsesTo reqG)
       [DownReadyRead ''GET example.com:80 HTTP/1.1'', LookupFinished 0 [''93.184.216.34''],
        UpConnected] (freshSession 7)))
   \<and> sent (downStream (conn_run (parsesTo reqG)
       ([DownReadyRead ''GET example.com:80 HTTP/1.1'', LookupFinished 0 [''93.184.216.34''],
        UpConnected] @ [UpReadyRead ''xyz'']) (freshSession 7))) = ''xyz''"
proof -
  let ?a = "[DownReadyRead ''CONNECT example.com:443 HTTP/1.1'',
       LookupFinished 0 [''93.184.216.34'']]"
  let ?g = "[DownReadyRead ''GET example.com:80 HTTP/1.1'', LookupFinished 0 [''93.184.216.34''],
        UpConnected]"
  have b: "\<not> signalsBlocked (upStream (conn_run (parsesTo reqA) ?a (freshSession 7)))"
    and s: "sockState (upStream (conn_run (parsesTo reqA) ?a (freshSession 7))) = ConnectingState"
    and sa: "sent (downStream (conn_run (parsesTo reqA) ?a (freshSession 7))) = []"
    and ra: "readBuffer (upStream (conn_run (parsesTo reqA) ?a (freshSession 7))) = []"
    by (simp_all add: socket_defs session_defs key_defs regex_defs reqA_def Let_def)
  have bg: "\<not> signalsBlocked (upStream (conn_run (parsesTo reqG) ?g (freshSession 7)))"
    and sg: "sent (downStream (conn_run (parsesTo reqG) ?g (freshSession 7))) = []"
    and rg: "readBuffer (upStream (conn_run (parsesTo reqG) ?g (freshSession 7))) = []"
    by (simp_all add: socket_defs session_defs key_defs regex_defs reqG_def Let_def)
  from upstream_relay_unguarded [OF b, of "''xyz''"] upstream_relay_unguarded [OF bg, of "''xyz''"]
  show ?thesis
    unfolding sa ra sg rg using b s bg by simp
qed


end
